theory Spec2Isabelle
  imports Main "HOL-Library.Finite_Map"
begin

section \<open>The transactional key-value store of \<^verbatim>\<open>Task2_database.py\<close>\<close>

text \<open>
  The class \<^verbatim>\<open>DatabaseSimulator\<close> keeps a dictionary \<^verbatim>\<open>db\<close> (the committed
  table) and a list \<^verbatim>\<open>_cache\<close> of dictionaries (the pending transactions, the oldest
  at index 0). A Python dictionary is a finite map; a method call either returns or
  raises, and leaves the object in some state, so each method is a function from the
  state to an outcome paired with the state the caller sees afterwards.
\<close>

subsection \<open>Values and their truth value\<close>

text \<open>
  Keys are any hashable Python object and stay a type parameter. What the code asks of a
  stored value is its truth value (\<^verbatim>\<open>if _cache_value:\<close>), so values are the Python
  objects the tests and the specification store, with Python's \<^verbatim>\<open>bool()\<close> on them:
  \<^verbatim>\<open>None\<close>, \<^verbatim>\<open>False\<close>, \<^verbatim>\<open>0\<close> and the empty string are false.
\<close>

datatype pyval = PyNone | PyBool bool | PyInt int | PyStr string

fun truthy :: "pyval \<Rightarrow> bool" where
  "truthy PyNone = False"
| "truthy (PyBool b) = b"
| "truthy (PyInt i) = (i \<noteq> 0)"
| "truthy (PyStr s) = (s \<noteq> [])"

type_synonym 'k dict = "('k, pyval) fmap"

text \<open>\<^verbatim>\<open>d.get(key, None)\<close>: the stored value, or \<^verbatim>\<open>None\<close> for a key that is not in \<^verbatim>\<open>d\<close>.\<close>

definition dict_get :: "'k dict \<Rightarrow> 'k \<Rightarrow> pyval" where
  "dict_get d key = (case fmlookup d key of None \<Rightarrow> PyNone | Some v \<Rightarrow> v)"

text \<open>\<^verbatim>\<open>len(d)\<close>: the number of keys.\<close>

definition dict_len :: "'k dict \<Rightarrow> nat" where
  "dict_len d = fcard (fmdom d)"

subsection \<open>The store and the outcome of a call\<close>

record 'k DatabaseSimulator =
  db :: "'k dict"
  cache :: "'k dict list"

text \<open>The one exception of the module: \<^verbatim>\<open>raise Exception("No active transaction")\<close>.\<close>

datatype error = NoActiveTransaction

type_synonym ('k, 'r) outcome = "(error + 'r) \<times> 'k DatabaseSimulator"

text \<open>\<^verbatim>\<open>__init__\<close>: an empty table and no transaction.\<close>

definition init :: "'k DatabaseSimulator" where
  "init = \<lparr>db = fmempty, cache = []\<rparr>"

subsection \<open>The methods\<close>

text \<open>\<^verbatim>\<open>begin\<close>: \<^verbatim>\<open>self._cache.append({})\<close>.\<close>

definition begin_db :: "'k DatabaseSimulator \<Rightarrow> ('k, unit) outcome" where
  "begin_db s = (Inr (), s\<lparr>cache := cache s @ [fmempty]\<rparr>)"

text \<open>\<^verbatim>\<open>count\<close>: \<^verbatim>\<open>return len(self.db)\<close>.\<close>

definition count :: "'k DatabaseSimulator \<Rightarrow> ('k, nat) outcome" where
  "count s = (Inr (dict_len (db s)), s)"

text \<open>
  The loop of \<^verbatim>\<open>get\<close> over \<^verbatim>\<open>reversed(self._cache)\<close>: the argument is the list already
  reversed, and \<open>Some v\<close> is the \<^verbatim>\<open>return _cache_value\<close> inside the loop, \<open>None\<close> the
  loop running to its end.
\<close>

fun get_loop :: "'k dict list \<Rightarrow> 'k \<Rightarrow> pyval option" where
  "get_loop [] key = None"
| "get_loop (cache_db # rest) key =
     (let cache_value = dict_get cache_db key
      in if truthy cache_value then Some cache_value else get_loop rest key)"

definition get :: "'k DatabaseSimulator \<Rightarrow> 'k \<Rightarrow> ('k, pyval) outcome" where
  "get s key =
     (case (if cache s \<noteq> [] then get_loop (rev (cache s)) key else None) of
        Some cache_value \<Rightarrow> (Inr cache_value, s)
      | None \<Rightarrow> (Inr (dict_get (db s) key), s))"

text \<open>
  \<^verbatim>\<open>set\<close>: raise when \<^verbatim>\<open>_cache\<close> is empty, else \<^verbatim>\<open>self._cache[-1][key] = value\<close>. Every
  dictionary of \<^verbatim>\<open>_cache\<close> is an object of its own (\<^verbatim>\<open>begin\<close> appends a fresh \<^verbatim>\<open>{}\<close>, and
  \<^verbatim>\<open>commit\<close> copies entries, not dictionaries), so the store of the last one changes no
  other.
\<close>

definition set_db :: "'k DatabaseSimulator \<Rightarrow> 'k \<Rightarrow> pyval \<Rightarrow> ('k, unit) outcome" where
  "set_db s key val =
     (if cache s = [] then (Inl NoActiveTransaction, s)
      else (Inr (), s\<lparr>cache := butlast (cache s) @ [fmupd key val (last (cache s))]\<rparr>))"

text \<open>
  \<^verbatim>\<open>commit\<close>: raise when \<^verbatim>\<open>_cache\<close> is empty, else \<^verbatim>\<open>self.db.update(cache)\<close> for each
  dictionary of \<^verbatim>\<open>_cache\<close> from index 0 on, then \<^verbatim>\<open>self._cache.clear()\<close>.
\<close>

definition dict_update :: "'k dict \<Rightarrow> 'k dict \<Rightarrow> 'k dict" where
  "dict_update d other = d ++\<^sub>f other"

definition commit :: "'k DatabaseSimulator \<Rightarrow> ('k, unit) outcome" where
  "commit s =
     (if cache s = [] then (Inl NoActiveTransaction, s)
      else (Inr (), \<lparr>db = fold (\<lambda>c d. dict_update d c) (cache s) (db s), cache = []\<rparr>))"

text \<open>\<^verbatim>\<open>rollback\<close>: raise when \<^verbatim>\<open>_cache\<close> is empty, else \<^verbatim>\<open>self._cache.pop()\<close>.\<close>

definition rollback :: "'k DatabaseSimulator \<Rightarrow> ('k, unit) outcome" where
  "rollback s =
     (if cache s = [] then (Inl NoActiveTransaction, s)
      else (Inr (), s\<lparr>cache := butlast (cache s)\<rparr>))"

subsection \<open>Sequences of calls\<close>

text \<open>
  A caller that makes the mutating calls one after the other, as the test function does.
  An exception ends the sequence, and the store stays as the raising call left it.
\<close>

datatype 'k call = Begin | Set 'k pyval | Commit | Rollback

fun apply_call :: "'k DatabaseSimulator \<Rightarrow> 'k call \<Rightarrow> ('k, unit) outcome" where
  "apply_call s Begin = begin_db s"
| "apply_call s (Set key val) = set_db s key val"
| "apply_call s Commit = commit s"
| "apply_call s Rollback = rollback s"

fun run :: "'k DatabaseSimulator \<Rightarrow> 'k call list \<Rightarrow> ('k, unit) outcome" where
  "run s [] = (Inr (), s)"
| "run s (c # cs) =
     (case apply_call s c of
        (Inl e, s') \<Rightarrow> (Inl e, s')
      | (Inr u, s') \<Rightarrow> run s' cs)"

fun is_begin_or_set :: "'k call \<Rightarrow> bool" where
  "is_begin_or_set Begin = True"
| "is_begin_or_set (Set key val) = True"
| "is_begin_or_set Commit = False"
| "is_begin_or_set Rollback = False"

subsection \<open>The read priority in the specification's words\<close>

text \<open>
  Invariant I3 of the specification, as a function of its own to compare the code with:
  the value of the innermost overlay that contains the key (the list is given innermost
  first), whatever that value is.
\<close>

fun innermost_binding :: "'k dict list \<Rightarrow> 'k \<Rightarrow> pyval option" where
  "innermost_binding [] key = None"
| "innermost_binding (overlay # older) key =
     (case fmlookup overlay key of
        Some v \<Rightarrow> Some v
      | None \<Rightarrow> innermost_binding older key)"

definition spec_get :: "'k DatabaseSimulator \<Rightarrow> 'k \<Rightarrow> pyval" where
  "spec_get s key =
     (case innermost_binding (rev (cache s)) key of
        Some v \<Rightarrow> v
      | None \<Rightarrow> dict_get (db s) key)"

text \<open>
  The reading of the specification's design notes: a false value stored in an overlay
  counts as no entry. The overlay without its entries of false value, so that the read
  priority above can be asked of the store whose overlays are cleared of them.
\<close>

definition drop_falsy :: "'k dict \<Rightarrow> 'k dict" where
  "drop_falsy overlay =
     fmfilter (\<lambda>k. case fmlookup overlay k of None \<Rightarrow> False | Some v \<Rightarrow> truthy v) overlay"

subsection \<open>The stores of the scenarios\<close>

text \<open>P2 of the specification: the stack \<^verbatim>\<open>[{a:1},{b:2},{a:3}]\<close> over an empty table.\<close>

definition P2_store :: "string DatabaseSimulator" where
  "P2_store =
     \<lparr>db = fmempty,
      cache = [fmupd ''a'' (PyInt 1) fmempty,
               fmupd ''b'' (PyInt 2) fmempty,
               fmupd ''a'' (PyInt 3) fmempty]\<rparr>"

text \<open>
  P3, and line 97 of the test: the stack \<^verbatim>\<open>[{c:5,e:1},{d:6},{e:7}]\<close>, which
  \<^verbatim>\<open>set("e", 99)\<close> turns into \<^verbatim>\<open>[{c:5,e:1},{d:6},{e:99}]\<close>.
\<close>

definition P3_before_set :: "string DatabaseSimulator" where
  "P3_before_set =
     \<lparr>db = fmempty,
      cache = [fmupd ''e'' (PyInt 1) (fmupd ''c'' (PyInt 5) fmempty),
               fmupd ''d'' (PyInt 6) fmempty,
               fmupd ''e'' (PyInt 7) fmempty]\<rparr>"

definition P3_store :: "string DatabaseSimulator" where
  "P3_store =
     \<lparr>db = fmempty,
      cache = [fmupd ''e'' (PyInt 1) (fmupd ''c'' (PyInt 5) fmempty),
               fmupd ''d'' (PyInt 6) fmempty,
               fmupd ''e'' (PyInt 99) fmempty]\<rparr>"

text \<open>P4: the stack \<^verbatim>\<open>[{d:"yep"},{d:"nope"}]\<close>.\<close>

definition P4_store :: "string DatabaseSimulator" where
  "P4_store =
     \<lparr>db = fmempty,
      cache = [fmupd ''d'' (PyStr ''yep'') fmempty,
               fmupd ''d'' (PyStr ''nope'') fmempty]\<rparr>"

text \<open>
  Stores with a false value: \<^verbatim>\<open>0\<close> written in a transaction over a committed \<^verbatim>\<open>7\<close>;
  \<^verbatim>\<open>False\<close> written in a transaction nested in one that wrote \<^verbatim>\<open>1\<close>; a committed
  \<^verbatim>\<open>0\<close> under a transaction that wrote another key; and \<^verbatim>\<open>0\<close> written in the
  innermost of three nested transactions, over \<^verbatim>\<open>5\<close>, over \<^verbatim>\<open>1\<close>, over a committed
  \<^verbatim>\<open>7\<close>.
\<close>

definition zero_over_table :: "string DatabaseSimulator" where
  "zero_over_table =
     \<lparr>db = fmupd ''a'' (PyInt 7) fmempty,
      cache = [fmupd ''a'' (PyInt 0) fmempty]\<rparr>"

definition false_over_one :: "string DatabaseSimulator" where
  "false_over_one =
     \<lparr>db = fmempty,
      cache = [fmupd ''a'' (PyInt 1) fmempty,
               fmupd ''a'' (PyBool False) fmempty]\<rparr>"

definition zero_in_table :: "string DatabaseSimulator" where
  "zero_in_table =
     \<lparr>db = fmupd ''a'' (PyInt 0) fmempty,
      cache = [fmupd ''b'' (PyInt 1) fmempty]\<rparr>"

definition zero_over_five_over_one :: "string DatabaseSimulator" where
  "zero_over_five_over_one =
     \<lparr>db = fmupd ''a'' (PyInt 7) fmempty,
      cache = [fmupd ''a'' (PyInt 1) fmempty,
               fmupd ''a'' (PyInt 5) fmempty,
               fmupd ''a'' (PyInt 0) fmempty]\<rparr>"

section \<open>Properties\<close>

subsection \<open>The loops\<close>

lemma get_loop_append:
  "get_loop (xs @ ys) key =
     (case get_loop xs key of Some v \<Rightarrow> Some v | None \<Rightarrow> get_loop ys key)"
  by (induction xs) (simp_all add: Let_def)

lemma innermost_binding_append:
  "innermost_binding (xs @ ys) key =
     (case innermost_binding xs key of Some v \<Rightarrow> Some v | None \<Rightarrow> innermost_binding ys key)"
  by (induction xs) (simp_all split: option.splits)

lemma dict_update_lookup:
  "fmlookup (dict_update d other) key =
     (case fmlookup other key of Some v \<Rightarrow> Some v | None \<Rightarrow> fmlookup d key)"
  by (auto simp: dict_update_def fmlookup_dom_iff split: option.splits)

lemma fold_dict_update_lookup:
  "fmlookup (fold (\<lambda>c d. dict_update d c) cs d) key =
     (case innermost_binding (rev cs) key of Some v \<Rightarrow> Some v | None \<Rightarrow> fmlookup d key)"
proof (induction cs arbitrary: d)
  case Nil
  show ?case by simp
next
  case (Cons c cs)
  show ?case
    by (simp add: Cons.IH innermost_binding_append dict_update_lookup split: option.splits)
qed

text \<open>An overlay without the key, or with a false value for it, does not stop the loop.\<close>

lemma get_loop_no_binding:
  "\<forall>c \<in> set cs. fmlookup c key = None \<Longrightarrow> get_loop cs key = None"
  by (induction cs) (simp_all add: Let_def dict_get_def)

lemma get_loop_falsy_entry:
  "\<not> truthy (dict_get c key) \<Longrightarrow> \<not> truthy (dict_get c' key) \<Longrightarrow>
   get_loop (xs @ c # ys) key = get_loop (xs @ c' # ys) key"
  by (induction xs) (simp_all add: Let_def)

lemma get_loop_all_falsy:
  "list_all (\<lambda>n. \<not> truthy (dict_get n key)) cs \<Longrightarrow> get_loop cs key = None"
  by (induction cs) (simp_all add: Let_def)

text \<open>
  The loop finds the innermost overlay that has the key once the entries of false value
  are taken out of every overlay.
\<close>

lemma drop_falsy_lookup:
  "fmlookup (drop_falsy overlay) key =
     (case fmlookup overlay key of
        None \<Rightarrow> None
      | Some v \<Rightarrow> if truthy v then Some v else None)"
  by (simp add: drop_falsy_def split: option.splits)

lemma get_loop_drop_falsy:
  "get_loop cs key = innermost_binding (map drop_falsy cs) key"
  by (induction cs) (simp_all add: Let_def dict_get_def drop_falsy_lookup split: option.splits)

text \<open>Where every stored value is true, the loop finds the innermost overlay with the key.\<close>

lemma get_loop_truthy_bindings:
  "\<forall>c \<in> set cs. \<forall>v. fmlookup c key = Some v \<longrightarrow> truthy v \<Longrightarrow>
   get_loop cs key = innermost_binding cs key"
  by (induction cs) (auto simp: Let_def dict_get_def split: option.splits)

subsection \<open>get\<close>

text \<open>
  What holds of \<^verbatim>\<open>get\<close> in every state: it returns, and the store is as before. It
  follows the read priority of invariant I3 on the stores whose overlays hold no false
  value for the key, and so in scenario P2.
\<close>

lemma get_state_unchanged: "snd (get s key) = s"
  by (simp add: get_def split: option.splits)

lemma get_never_raises: "\<exists>v. fst (get s key) = Inr v"
  by (simp add: get_def split: option.splits)

lemma get_is_spec_get_on_truthy:
  "\<forall>c \<in> set (cache s). \<forall>v. fmlookup c key = Some v \<longrightarrow> truthy v \<Longrightarrow>
   get s key = (Inr (spec_get s key), s)"
  using get_loop_truthy_bindings [of "rev (cache s)" key]
  by (auto simp: get_def spec_get_def split: option.splits)

lemma get_is_spec_get_without_falsy:
  "get s key = (Inr (spec_get (s\<lparr>cache := map drop_falsy (cache s)\<rparr>) key), s)"
  by (simp add: get_def spec_get_def get_loop_drop_falsy rev_map split: option.splits)

lemma get_P2_scenario:
  "get P2_store ''a'' = (Inr (PyInt 3), P2_store) \<and>
   get P2_store ''b'' = (Inr (PyInt 2), P2_store) \<and>
   get P2_store ''c'' = (Inr PyNone, P2_store)"
  by (simp add: get_def P2_store_def dict_get_def)

text \<open>
  Claim C1. The read priority of invariant I3 does not hold in every state. The calls
  \<^verbatim>\<open>begin(); set("a", 7); commit(); begin(); set("a", 0)\<close> on a fresh store leave the
  table \<^verbatim>\<open>{a:7}\<close> under the stack \<^verbatim>\<open>[{a:0}]\<close>. The innermost overlay that contains
  \<^verbatim>\<open>a\<close> holds \<^verbatim>\<open>0\<close>, which is what I3 asks for; \<^verbatim>\<open>get("a")\<close> returns the table's
  \<^verbatim>\<open>7\<close>, since the loop tests the truth value of what it read and not whether the key
  is there.
\<close>

theorem get_skips_falsy_innermost:
  "run init [Begin, Set ''a'' (PyInt 7), Commit, Begin, Set ''a'' (PyInt 0)]
     = (Inr (), zero_over_table) \<and>
   get zero_over_table ''a'' = (Inr (PyInt 7), zero_over_table) \<and>
   spec_get zero_over_table ''a'' = PyInt 0"
  by (simp add: get_def spec_get_def zero_over_table_def dict_get_def init_def
      begin_db_def set_db_def commit_def dict_update_def)

subsection \<open>commit\<close>

text \<open>
  Claim C2. With a transaction open, \<^verbatim>\<open>commit\<close> returns normally, leaves the stack
  empty, and the table holds for every key the value of the newest overlay that contains
  it (so a newer overlay wins over older ones and over the table), and the table's old
  value for a key that no overlay contains: all levels are folded in by the one call.
  The witness is scenario P3: from \<^verbatim>\<open>[{c:5,e:1},{d:6},{e:99}]\<close> over an empty table
  the table becomes \<^verbatim>\<open>{c:5,d:6,e:99}\<close>.
\<close>

theorem commit_flattens_stack:
  assumes "cache s \<noteq> []"
  shows "\<exists>s'. commit s = (Inr (), s') \<and> cache s' = [] \<and>
           (\<forall>key. fmlookup (db s') key =
              (case innermost_binding (rev (cache s)) key of
                 Some v \<Rightarrow> Some v
               | None \<Rightarrow> fmlookup (db s) key))"
  using assms by (simp add: commit_def fold_dict_update_lookup)

theorem commit_flattens_stack_witness:
  "cache P3_store \<noteq> [] \<and>
   commit P3_store =
     (Inr (), \<lparr>db = fmupd ''c'' (PyInt 5) (fmupd ''d'' (PyInt 6) (fmupd ''e'' (PyInt 99) fmempty)),
               cache = []\<rparr>)"
proof -
  have ne: "cache P3_store \<noteq> []" by (simp add: P3_store_def)
  from commit_flattens_stack [OF ne] obtain s' where
    c: "commit P3_store = (Inr (), s')" and e: "cache s' = []" and
    l: "\<forall>key. fmlookup (db s') key =
              (case innermost_binding (rev (cache P3_store)) key of
                 Some v \<Rightarrow> Some v
               | None \<Rightarrow> fmlookup (db P3_store) key)" by blast
  have "db s' = fmupd ''c'' (PyInt 5) (fmupd ''d'' (PyInt 6) (fmupd ''e'' (PyInt 99) fmempty))"
    by (rule fmap_ext) (auto simp: l P3_store_def)
  with e have "s' = \<lparr>db = fmupd ''c'' (PyInt 5) (fmupd ''d'' (PyInt 6) (fmupd ''e'' (PyInt 99) fmempty)),
                      cache = []\<rparr>"
    by (cases s') simp
  with ne c show ?thesis by simp
qed

subsection \<open>False values in get\<close>

text \<open>
  Claim C3. A false value stored in the innermost overlay that contains the key is not
  what \<^verbatim>\<open>get\<close> returns. After \<^verbatim>\<open>begin(); set("a", 1); begin(); set("a", False)\<close> on a
  fresh store the stack is \<^verbatim>\<open>[{a:1},{a:False}]\<close>; the innermost overlay with \<^verbatim>\<open>a\<close>
  holds \<^verbatim>\<open>False\<close>, and \<^verbatim>\<open>get("a")\<close> returns the older overlay's \<^verbatim>\<open>1\<close>.
\<close>

theorem get_returns_older_for_falsy:
  "run init [Begin, Set ''a'' (PyInt 1), Begin, Set ''a'' (PyBool False)]
     = (Inr (), false_over_one) \<and>
   innermost_binding (rev (cache false_over_one)) ''a'' = Some (PyBool False) \<and>
   \<not> truthy (PyBool False) \<and>
   get false_over_one ''a'' = (Inr (PyInt 1), false_over_one)"
  by (simp add: get_def false_over_one_def dict_get_def init_def begin_db_def set_db_def)

text \<open>
  Claim C4. Let an overlay, anywhere in the stack, hold a false value for the key. Then
  that entry is among those \<open>drop_falsy\<close> takes out, and \<^verbatim>\<open>get\<close> returns, with the
  store unchanged, the value that the read priority of invariant I3 gives on the store
  whose overlays are cleared of their false entries: the value of the innermost overlay
  that holds a true value for the key, else the table's. It returns the same as on the
  store with that one entry deleted. And when no newer overlay answers, the result is
  the one the older overlays and the table give by themselves: the call falls through
  to them. The witness has the \<^verbatim>\<open>0\<close> innermost over \<^verbatim>\<open>5\<close> over \<^verbatim>\<open>1\<close> over a committed
  \<^verbatim>\<open>7\<close>, and \<^verbatim>\<open>get\<close> returns the \<^verbatim>\<open>5\<close> of the next older overlay.
\<close>

theorem get_treats_falsy_as_absent:
  assumes "cache s = older @ c # newer"
    and "fmlookup c key = Some v"
    and "\<not> truthy v"
  shows "fmlookup (drop_falsy c) key = None \<and>
         get s key = (Inr (spec_get (s\<lparr>cache := map drop_falsy (cache s)\<rparr>) key), s) \<and>
         fst (get s key) = fst (get (s\<lparr>cache := older @ fmdrop key c # newer\<rparr>) key) \<and>
         (list_all (\<lambda>n. \<not> truthy (dict_get n key)) newer \<longrightarrow>
            get s key = (Inr (spec_get (s\<lparr>cache := map drop_falsy older\<rparr>) key), s))"
proof (intro conjI impI)
  show "fmlookup (drop_falsy c) key = None"
    using assms by (simp add: drop_falsy_lookup)
next
  show "get s key = (Inr (spec_get (s\<lparr>cache := map drop_falsy (cache s)\<rparr>) key), s)"
    by (rule get_is_spec_get_without_falsy)
next
  have "\<not> truthy (dict_get c key)" "\<not> truthy (dict_get (fmdrop key c) key)"
    using assms by (simp_all add: dict_get_def)
  then have "get_loop (rev newer @ c # rev older) key =
             get_loop (rev newer @ fmdrop key c # rev older) key"
    by (rule get_loop_falsy_entry)
  then show "fst (get s key) = fst (get (s\<lparr>cache := older @ fmdrop key c # newer\<rparr>) key)"
    using assms(1) by (simp add: get_def split: option.splits)
next
  assume "list_all (\<lambda>n. \<not> truthy (dict_get n key)) newer"
  then have "list_all (\<lambda>n. \<not> truthy (dict_get n key)) (rev newer)"
    by (simp add: list_all_iff)
  then have n: "get_loop (rev newer) key = None"
    by (rule get_loop_all_falsy)
  have c: "\<not> truthy (dict_get c key)"
    using assms by (simp add: dict_get_def)
  have "get_loop (rev (cache s)) key = get_loop (rev older) key"
    using assms(1) n c by (simp add: get_loop_append Let_def)
  then show "get s key = (Inr (spec_get (s\<lparr>cache := map drop_falsy older\<rparr>) key), s)"
    using assms(1)
    by (simp add: get_def spec_get_def get_loop_drop_falsy rev_map split: option.splits)
qed

theorem get_treats_falsy_as_absent_witness:
  "run init [Begin, Set ''a'' (PyInt 7), Commit, Begin, Set ''a'' (PyInt 1),
             Begin, Set ''a'' (PyInt 5), Begin, Set ''a'' (PyInt 0)]
     = (Inr (), zero_over_five_over_one) \<and>
   cache zero_over_five_over_one =
     [fmupd ''a'' (PyInt 1) fmempty, fmupd ''a'' (PyInt 5) fmempty]
       @ fmupd ''a'' (PyInt 0) fmempty # [] \<and>
   fmlookup (fmupd ''a'' (PyInt 0) fmempty) ''a'' = Some (PyInt 0) \<and>
   \<not> truthy (PyInt 0) \<and>
   list_all (\<lambda>n. \<not> truthy (dict_get n ''a'')) [] \<and>
   get zero_over_five_over_one ''a'' = (Inr (PyInt 5), zero_over_five_over_one) \<and>
   spec_get (zero_over_five_over_one
               \<lparr>cache := map drop_falsy (cache zero_over_five_over_one)\<rparr>) ''a'' = PyInt 5 \<and>
   spec_get (zero_over_five_over_one
               \<lparr>cache := map drop_falsy
                  [fmupd ''a'' (PyInt 1) fmempty, fmupd ''a'' (PyInt 5) fmempty]\<rparr>) ''a''
     = PyInt 5 \<and>
   fst (get (zero_over_five_over_one
               \<lparr>cache := [fmupd ''a'' (PyInt 1) fmempty, fmupd ''a'' (PyInt 5) fmempty]
                  @ fmdrop ''a'' (fmupd ''a'' (PyInt 0) fmempty) # []\<rparr>) ''a'')
     = Inr (PyInt 5)"
  using get_treats_falsy_as_absent
    [where s = zero_over_five_over_one
       and older = "[fmupd ''a'' (PyInt 1) fmempty, fmupd ''a'' (PyInt 5) fmempty]"
       and c = "fmupd ''a'' (PyInt 0) fmempty" and newer = "[]"
       and key = "''a''" and v = "PyInt 0"]
  by (simp add: zero_over_five_over_one_def get_def spec_get_def dict_get_def drop_falsy_def
      init_def begin_db_def set_db_def commit_def dict_update_def)

subsection \<open>Calls without a transaction\<close>

text \<open>
  Claim C5. With an empty stack, \<^verbatim>\<open>set\<close>, \<^verbatim>\<open>commit\<close> and \<^verbatim>\<open>rollback\<close> each raise the
  module's one exception, \<^verbatim>\<open>Exception("No active transaction")\<close>, and the store the
  caller sees after it is the store before the call, table and stack alike.
\<close>

theorem empty_stack_calls_raise:
  assumes "cache s = []"
  shows "set_db s key val = (Inl NoActiveTransaction, s) \<and>
         commit s = (Inl NoActiveTransaction, s) \<and>
         rollback s = (Inl NoActiveTransaction, s)"
  using assms by (simp add: set_db_def commit_def rollback_def)

theorem empty_stack_calls_raise_witness:
  "cache (init :: string DatabaseSimulator) = [] \<and>
   set_db init ''a'' (PyInt 1) = (Inl NoActiveTransaction, init) \<and>
   commit (init :: string DatabaseSimulator) = (Inl NoActiveTransaction, init) \<and>
   rollback (init :: string DatabaseSimulator) = (Inl NoActiveTransaction, init)"
  using empty_stack_calls_raise [of "init :: string DatabaseSimulator" "''a''" "PyInt 1"]
  by (simp add: init_def)

subsection \<open>rollback\<close>

text \<open>
  Claim C6. With a transaction open, \<^verbatim>\<open>rollback\<close> returns normally; the stack before
  the call is the stack after it followed by the one overlay that was last, so the stack
  is shorter by exactly one and every older overlay is in its place unchanged; the table
  is unchanged. The witness is scenario P4: from \<^verbatim>\<open>[{d:"yep"},{d:"nope"}]\<close> the stack
  becomes \<^verbatim>\<open>[{d:"yep"}]\<close>.
\<close>

theorem rollback_pops_innermost:
  assumes "cache s \<noteq> []"
  shows "\<exists>s'. rollback s = (Inr (), s') \<and>
           cache s' @ [last (cache s)] = cache s \<and>
           length (cache s') + 1 = length (cache s) \<and>
           db s' = db s"
  using assms by (simp add: rollback_def)

theorem rollback_pops_innermost_witness:
  "cache P4_store \<noteq> [] \<and>
   rollback P4_store = (Inr (), \<lparr>db = fmempty, cache = [fmupd ''d'' (PyStr ''yep'') fmempty]\<rparr>)"
proof -
  have ne: "cache P4_store \<noteq> []" by (simp add: P4_store_def)
  from rollback_pops_innermost [OF ne] obtain s' where
    r: "rollback P4_store = (Inr (), s')" and
    c: "cache s' @ [last (cache P4_store)] = cache P4_store" and
    d: "db s' = db P4_store" by blast
  from c have "cache s' = [fmupd ''d'' (PyStr ''yep'') fmempty]"
    by (simp add: P4_store_def)
  with d have "s' = \<lparr>db = fmempty, cache = [fmupd ''d'' (PyStr ''yep'') fmempty]\<rparr>"
    by (cases s') (simp add: P4_store_def)
  with ne r show ?thesis by simp
qed

subsection \<open>set and the isolation of the table\<close>

lemma begin_or_set_keeps_db:
  "is_begin_or_set c \<Longrightarrow> db (snd (apply_call s c)) = db s"
  by (cases c) (simp_all add: begin_db_def set_db_def)

lemma run_begin_set_keeps_db:
  "\<forall>c \<in> set calls. is_begin_or_set c \<Longrightarrow> db (snd (run s calls)) = db s"
proof (induction calls arbitrary: s)
  case Nil
  show ?case by simp
next
  case (Cons c cs)
  obtain r s' where a: "apply_call s c = (r, s')" by (cases "apply_call s c")
  from Cons.prems have "is_begin_or_set c" by simp
  then have d: "db s' = db s" using begin_or_set_keeps_db [of c s] a by simp
  show ?case
  proof (cases r)
    case (Inl e)
    with a d show ?thesis by simp
  next
    case (Inr u)
    from Cons.prems have "\<forall>c \<in> set cs. is_begin_or_set c" by simp
    then have "db (snd (run s' cs)) = db s'" by (rule Cons.IH)
    with a d Inr show ?thesis by simp
  qed
qed

text \<open>
  Claim C7. With a transaction open, \<^verbatim>\<open>set\<close> returns normally and stores the value
  under the key in the last overlay; the table and the overlays before the last are
  unchanged. And in a sequence of \<^verbatim>\<open>begin\<close> and \<^verbatim>\<open>set\<close> calls, from any store, the
  table and the result of \<^verbatim>\<open>count\<close> are after any number \<open>n\<close> of the calls what they
  were at the start (a \<^verbatim>\<open>set\<close> that raises ends the sequence and changes nothing). The
  witness is the \<^verbatim>\<open>set("e", 99)\<close> of scenario P3.
\<close>

theorem set_writes_innermost_only:
  "(cache s \<noteq> [] \<longrightarrow>
      (\<exists>s'. set_db s key val = (Inr (), s') \<and>
            db s' = db s \<and>
            butlast (cache s') = butlast (cache s) \<and>
            last (cache s') = fmupd key val (last (cache s)))) \<and>
   (list_all is_begin_or_set calls \<longrightarrow>
      db (snd (run s (take n calls))) = db s \<and>
      fst (count (snd (run s (take n calls)))) = fst (count s))"
proof (intro conjI impI)
  assume "cache s \<noteq> []"
  then show "\<exists>s'. set_db s key val = (Inr (), s') \<and> db s' = db s \<and>
            butlast (cache s') = butlast (cache s) \<and>
            last (cache s') = fmupd key val (last (cache s))"
    by (simp add: set_db_def)
next
  assume "list_all is_begin_or_set calls"
  then have "\<forall>c \<in> set (take n calls). is_begin_or_set c"
    by (auto simp: list_all_iff dest: in_set_takeD)
  then show "db (snd (run s (take n calls))) = db s"
    by (rule run_begin_set_keeps_db)
  then show "fst (count (snd (run s (take n calls)))) = fst (count s)"
    by (simp add: count_def)
qed

theorem set_writes_innermost_only_witness:
  "cache P3_before_set \<noteq> [] \<and>
   set_db P3_before_set ''e'' (PyInt 99) = (Inr (), P3_store) \<and>
   list_all is_begin_or_set [Begin, Set ''e'' (PyInt 99), Begin] \<and>
   db (snd (run P3_before_set (take 2 [Begin, Set ''e'' (PyInt 99), Begin]))) = fmempty \<and>
   fst (count (snd (run P3_before_set (take 2 [Begin, Set ''e'' (PyInt 99), Begin])))) = Inr 0"
  using set_writes_innermost_only
    [of P3_before_set "''e''" "PyInt 99" "[Begin, Set ''e'' (PyInt 99), Begin]" 2]
  by (simp add: P3_before_set_def P3_store_def set_db_def count_def dict_len_def)

subsection \<open>begin and count\<close>

text \<open>
  Claim C8. \<^verbatim>\<open>begin\<close> returns normally in every state, and the store after it has the
  same table and the same overlays followed by one new empty overlay, so a stack longer
  by one. \<^verbatim>\<open>count\<close> returns normally in every state, leaves the store as it was, and
  its result is the number of keys of the table, whatever the overlays hold.
\<close>

theorem begin_pushes_count_reads_table:
  "(\<exists>s'. begin_db s = (Inr (), s') \<and>
         cache s' = cache s @ [fmempty] \<and>
         length (cache s') = length (cache s) + 1 \<and>
         db s' = db s) \<and>
   count s = (Inr (fcard (fmdom (db s))), s) \<and>
   fst (count (s\<lparr>cache := overlays\<rparr>)) = fst (count s)"
  by (simp add: begin_db_def count_def dict_len_def)

text \<open>
  Claim C9. \<^verbatim>\<open>begin\<close> followed at once by \<^verbatim>\<open>rollback\<close>: both return normally and the
  store is the one before the \<^verbatim>\<open>begin\<close>, table and stack.
\<close>

theorem begin_rollback_roundtrip:
  "run s [Begin, Rollback] = (Inr (), s) \<and>
   rollback (snd (begin_db s)) = (Inr (), s)"
  by (simp add: begin_db_def rollback_def)

subsection \<open>False values in the table\<close>

text \<open>
  Claim C10. When no overlay contains the key, \<^verbatim>\<open>get\<close> returns the value the table
  holds for it, whatever its truth value, and leaves the store as it was: the last
  lookup has no test. The witness is a committed \<^verbatim>\<open>0\<close>.
\<close>

theorem get_base_value_even_if_falsy:
  assumes "list_all (\<lambda>c. fmlookup c key = None) (cache s)"
    and "fmlookup (db s) key = Some v"
  shows "get s key = (Inr v, s)"
  using assms get_loop_no_binding [of "rev (cache s)" key]
  by (simp add: get_def dict_get_def list_all_iff)

theorem get_base_value_even_if_falsy_witness:
  "list_all (\<lambda>c. fmlookup c ''a'' = None) (cache zero_in_table) \<and>
   fmlookup (db zero_in_table) ''a'' = Some (PyInt 0) \<and>
   \<not> truthy (PyInt 0) \<and>
   get zero_in_table ''a'' = (Inr (PyInt 0), zero_in_table)"
  using get_base_value_even_if_falsy [where s = zero_in_table and key = "''a''" and v = "PyInt 0"]
  by (simp add: zero_in_table_def)

end
